theory Spec2Isabelle
  imports Complex_Main
begin

section \<open>The backtesting engine of backtesting.py\<close>

text \<open>
  The engine is the Python class \<open>BacktestingEngine\<close>. Its fields become a record, its
  methods functions from the engine to the updated engine. Python floats are modelled as
  real numbers: rounding, overflow and the sign of zero are left out, every other step of
  the arithmetic is kept. Where the source can raise, the model returns the exception as a
  value.
\<close>

datatype error = IndexError | ZeroDivisionError | ValueError

datatype side = BUY | SELL

type_synonym trade = "side \<times> real \<times> int"

text \<open>
  One row of \<open>self.data\<close>: the \<open>Close\<close> price and the \<open>signal\<close> of that day.
\<close>

type_synonym row = "real \<times> int"

definition Close :: "row \<Rightarrow> real" where
  "Close r = fst r"

definition signal :: "row \<Rightarrow> int" where
  "signal r = snd r"

record engine =
  data :: "row list"
  initial_capital :: real
  cash :: real
  position :: int
  commission :: real
  trades :: "trade list"
  portfolio_values :: "real list"

text \<open>\<open>__init__\<close>: a fresh engine holds the capital as cash, no shares and empty logs.\<close>

definition init_engine :: "row list \<Rightarrow> real \<Rightarrow> real \<Rightarrow> engine" where
  "init_engine d capital comm =
     \<lparr>data = d, initial_capital = capital, cash = capital, position = 0,
      commission = comm, trades = [], portfolio_values = []\<rparr>"

text \<open>
  \<open>buy\<close>: with no position open, the quantity is \<open>int(self.cash // price)\<close>. Python's
  float floor division raises ZeroDivisionError when the price is zero; otherwise it is
  the floor of the quotient.
\<close>

definition buy :: "engine \<Rightarrow> real \<Rightarrow> error + engine" where
  "buy e price =
     (if position e = 0 then
        (if price = 0 then Inl ZeroDivisionError
         else
           let quantity = \<lfloor>cash e / price\<rfloor> in
           if quantity \<le> 0 then Inr e
           else
             let cost = of_int quantity * price;
                 commission_cost = cost * commission e
             in Inr (e\<lparr>cash := cash e - (cost + commission_cost),
                       position := quantity,
                       trades := trades e @ [(BUY, price, quantity)]\<rparr>))
      else Inr e)"

text \<open>\<open>sell\<close>: with a position open, all shares are sold at the price.\<close>

definition sell :: "engine \<Rightarrow> real \<Rightarrow> engine" where
  "sell e price =
     (if position e > 0 then
        let quantity = position e;
            revenue = of_int quantity * price;
            commission_cost = revenue * commission e
        in e\<lparr>cash := cash e + (revenue - commission_cost),
             position := 0,
             trades := trades e @ [(SELL, price, quantity)]\<rparr>
      else e)"

text \<open>
  The rule applied on day \<open>i\<close>, before the portfolio value is recorded: the two
  crossover tests of the loop body, in the order of the source.
\<close>

definition apply_signal :: "engine \<Rightarrow> nat \<Rightarrow> error + engine" where
  "apply_signal e i =
     (let price = Close (data e ! i);
          prev_signal = signal (data e ! (i - 1));
          current_signal = signal (data e ! i)
      in if prev_signal = -1 \<and> current_signal = 1 then buy e price
         else if prev_signal = 1 \<and> current_signal = -1 then Inr (sell e price)
         else Inr e)"

text \<open>The body of the loop of \<open>run_backtest\<close> for the index \<open>i\<close>.\<close>

definition step :: "engine \<Rightarrow> nat \<Rightarrow> error + engine" where
  "step e i =
     (case apply_signal e i of
        Inl err \<Rightarrow> Inl err
      | Inr e' \<Rightarrow>
          let price = Close (data e ! i);
              portfolio_value = cash e' + of_int (position e') * price
          in Inr (e'\<lparr>portfolio_values := portfolio_values e' @ [portfolio_value]\<rparr>))"

text \<open>The loop over a list of indices; an exception of the body ends it.\<close>

fun loop :: "nat list \<Rightarrow> engine \<Rightarrow> error + engine" where
  "loop [] e = Inr e"
| "loop (i # is) e = (case step e i of Inl err \<Rightarrow> Inl err | Inr e' \<Rightarrow> loop is e')"

text \<open>
  \<open>run_backtest\<close>: the loop over \<open>range(1, len(self.data))\<close>, then the final value at
  \<open>self.data["Close"].iloc[-1]\<close>, which raises IndexError on empty data. The result is
  the returned value together with the engine as the call leaves it.
\<close>

definition run_backtest :: "engine \<Rightarrow> error + (real \<times> engine)" where
  "run_backtest e =
     (case loop [1..<length (data e)] e of
        Inl err \<Rightarrow> Inl err
      | Inr e' \<Rightarrow>
          if data e' = [] then Inl IndexError
          else
            let final_price = Close (last (data e'))
            in Inr (cash e' + of_int (position e') * final_price, e'))"

section \<open>The values of numpy's float arithmetic\<close>

text \<open>
  \<open>calculate_performance\<close> computes with numpy, where a division by zero does not raise
  but gives an infinity or NaN, which then travel through the later operations. A numpy
  float is a real number (rounding left out, one zero only), one of the two infinities, or
  NaN; the operations below follow IEEE 754 on the special values.
\<close>

datatype npfloat = Fin real | PInf | NInf | NaN

definition isnan :: "npfloat \<Rightarrow> bool" where
  "isnan x = (x = NaN)"

definition isfinite :: "npfloat \<Rightarrow> bool" where
  "isfinite x = (case x of Fin _ \<Rightarrow> True | _ \<Rightarrow> False)"

fun np_neg :: "npfloat \<Rightarrow> npfloat" where
  "np_neg (Fin x) = Fin (- x)"
| "np_neg PInf = NInf"
| "np_neg NInf = PInf"
| "np_neg NaN = NaN"

fun np_add :: "npfloat \<Rightarrow> npfloat \<Rightarrow> npfloat" where
  "np_add NaN _ = NaN"
| "np_add _ NaN = NaN"
| "np_add (Fin x) (Fin y) = Fin (x + y)"
| "np_add PInf NInf = NaN"
| "np_add NInf PInf = NaN"
| "np_add PInf _ = PInf"
| "np_add _ PInf = PInf"
| "np_add NInf _ = NInf"
| "np_add _ NInf = NInf"

definition np_sub :: "npfloat \<Rightarrow> npfloat \<Rightarrow> npfloat" where
  "np_sub x y = np_add x (np_neg y)"

fun np_mul :: "npfloat \<Rightarrow> npfloat \<Rightarrow> npfloat" where
  "np_mul NaN _ = NaN"
| "np_mul _ NaN = NaN"
| "np_mul (Fin x) (Fin y) = Fin (x * y)"
| "np_mul PInf (Fin y) = (if y = 0 then NaN else if 0 < y then PInf else NInf)"
| "np_mul NInf (Fin y) = (if y = 0 then NaN else if 0 < y then NInf else PInf)"
| "np_mul (Fin x) PInf = (if x = 0 then NaN else if 0 < x then PInf else NInf)"
| "np_mul (Fin x) NInf = (if x = 0 then NaN else if 0 < x then NInf else PInf)"
| "np_mul PInf PInf = PInf"
| "np_mul NInf NInf = PInf"
| "np_mul PInf NInf = NInf"
| "np_mul NInf PInf = NInf"

fun np_div :: "npfloat \<Rightarrow> npfloat \<Rightarrow> npfloat" where
  "np_div NaN _ = NaN"
| "np_div _ NaN = NaN"
| "np_div (Fin x) (Fin y) =
     (if y \<noteq> 0 then Fin (x / y)
      else if x = 0 then NaN
      else if 0 < x then PInf
      else NInf)"
| "np_div (Fin x) PInf = Fin 0"
| "np_div (Fin x) NInf = Fin 0"
| "np_div PInf (Fin y) = (if 0 \<le> y then PInf else NInf)"
| "np_div NInf (Fin y) = (if 0 \<le> y then NInf else PInf)"
| "np_div PInf PInf = NaN"
| "np_div PInf NInf = NaN"
| "np_div NInf PInf = NaN"
| "np_div NInf NInf = NaN"

text \<open>
  \<open>x ** y\<close> for a finite exponent \<open>y\<close>. A negative base has a power only for a whole
  exponent; an odd whole exponent keeps the sign of a negative infinity.
\<close>

definition is_whole :: "real \<Rightarrow> bool" where
  "is_whole y = (of_int \<lfloor>y\<rfloor> = y)"

definition is_odd_whole :: "real \<Rightarrow> bool" where
  "is_odd_whole y = (is_whole y \<and> odd \<lfloor>y\<rfloor>)"

fun np_pow :: "npfloat \<Rightarrow> real \<Rightarrow> npfloat" where
  "np_pow NaN y = (if y = 0 then Fin 1 else NaN)"
| "np_pow PInf y = (if y = 0 then Fin 1 else if 0 < y then PInf else Fin 0)"
| "np_pow NInf y =
     (if y = 0 then Fin 1
      else if 0 < y then (if is_odd_whole y then NInf else PInf)
      else Fin 0)"
| "np_pow (Fin x) y =
     (if y = 0 then Fin 1
      else if 0 < x then Fin (x powr y)
      else if x = 0 then (if 0 < y then Fin 0 else PInf)
      else if is_whole y then Fin (x powi \<lfloor>y\<rfloor>)
      else NaN)"

text \<open>
  \<open>np.std\<close>, the population standard deviation. On an empty array the mean is NaN, and
  an infinite entry makes its own deviation from the mean NaN, so the result is a number
  only for a non-empty array of finite values.
\<close>

definition fin_val :: "npfloat \<Rightarrow> real" where
  "fin_val x = (case x of Fin r \<Rightarrow> r | _ \<Rightarrow> 0)"

definition mean :: "real list \<Rightarrow> real" where
  "mean xs = sum_list xs / real (length xs)"

definition np_std :: "npfloat list \<Rightarrow> npfloat" where
  "np_std xs =
     (if xs \<noteq> [] \<and> list_all isfinite xs then
        let rs = map fin_val xs; mu = mean rs
        in Fin (sqrt (mean (map (\<lambda>r. (r - mu)\<^sup>2) rs)))
      else NaN)"

text \<open>\<open>np.min\<close>: a NaN entry makes the minimum NaN; an empty array raises ValueError.\<close>

fun np_le :: "npfloat \<Rightarrow> npfloat \<Rightarrow> bool" where
  "np_le NaN _ = False"
| "np_le _ NaN = False"
| "np_le NInf _ = True"
| "np_le _ PInf = True"
| "np_le (Fin x) (Fin y) = (x \<le> y)"
| "np_le _ _ = False"

definition np_minimum :: "npfloat \<Rightarrow> npfloat \<Rightarrow> npfloat" where
  "np_minimum a b = (if isnan a \<or> isnan b then NaN else if np_le a b then a else b)"

fun np_min :: "npfloat list \<Rightarrow> error + npfloat" where
  "np_min [] = Inl ValueError"
| "np_min (x # xs) = Inr (fold (\<lambda>y acc. np_minimum acc y) xs x)"

section \<open>The performance metrics\<close>

text \<open>\<open>np.diff(a)\<close> is \<open>a[1:] - a[:-1]\<close>.\<close>

definition np_diff :: "real list \<Rightarrow> real list" where
  "np_diff a = map2 (\<lambda>x y. x - y) (tl a) (butlast a)"

text \<open>The per-step returns \<open>np.diff(portfolio_values) / portfolio_values[:-1]\<close>.\<close>

definition returns_raw :: "real list \<Rightarrow> npfloat list" where
  "returns_raw pv = map2 (\<lambda>d v. np_div (Fin d) (Fin v)) (np_diff pv) (butlast pv)"

text \<open>The return series after \<open>returns[~np.isnan(returns)]\<close>.\<close>

definition returns :: "real list \<Rightarrow> npfloat list" where
  "returns pv = filter (\<lambda>r. \<not> isnan r) (returns_raw pv)"

text \<open>\<open>np.maximum.accumulate\<close>: the running maximum.\<close>

fun accumulate_from :: "real \<Rightarrow> real list \<Rightarrow> real list" where
  "accumulate_from m [] = []"
| "accumulate_from m (x # xs) = max m x # accumulate_from (max m x) xs"

fun maximum_accumulate :: "real list \<Rightarrow> real list" where
  "maximum_accumulate [] = []"
| "maximum_accumulate (x # xs) = x # accumulate_from x xs"

definition drawdown :: "real list \<Rightarrow> npfloat list" where
  "drawdown pv =
     map2 (\<lambda>v m. np_div (Fin (v - m)) (Fin m)) pv (maximum_accumulate pv)"

definition max_drawdown :: "real list \<Rightarrow> error + npfloat" where
  "max_drawdown pv = np_min (drawdown pv)"

text \<open>
  The win ratio. The loop runs over \<open>range(1, len(self.trades), 2)\<close> and reads the
  trades \<open>i - 1\<close> and \<open>i\<close>, whatever their sides.
\<close>

function range_step2 :: "nat \<Rightarrow> nat \<Rightarrow> nat list" where
  "range_step2 i n = (if i < n then i # range_step2 (i + 2) n else [])"
  by pat_completeness auto
termination
  by (relation "measure (\<lambda>(i, n). n - i)") auto

declare range_step2.simps [simp del]

definition trade_price :: "trade \<Rightarrow> real" where
  "trade_price t = fst (snd t)"

definition trade_qty :: "trade \<Rightarrow> int" where
  "trade_qty t = snd (snd t)"

definition profits :: "trade list \<Rightarrow> real list" where
  "profits ts =
     map (\<lambda>i. let buy_price = trade_price (ts ! (i - 1));
                 sell_price = trade_price (ts ! i);
                 qty = trade_qty (ts ! (i - 1))
             in (sell_price - buy_price) * of_int qty)
       (range_step2 1 (length ts))"

definition win_ratio :: "trade list \<Rightarrow> real" where
  "win_ratio ts =
     (let ps = profits ts
      in if ps \<noteq> [] then real (length (filter (\<lambda>p. 0 < p) ps)) / real (length ps)
         else 0)"

record metrics =
  Total_Return :: npfloat
  Annualized_Return :: npfloat
  Volatility :: npfloat
  Sharpe_Ratio :: npfloat
  Max_Drawdown :: npfloat
  Win_Ratio :: real

text \<open>
  \<open>calculate_performance\<close>: None below two portfolio values. \<open>252 / len(self.data)\<close>
  divides Python numbers and raises ZeroDivisionError on empty data.
\<close>

definition calculate_performance :: "engine \<Rightarrow> error + metrics option" where
  "calculate_performance e =
     (if length (portfolio_values e) < 2 then Inr None
      else
        let pv = portfolio_values e;
            total_return = np_div (Fin (last pv - initial_capital e)) (Fin (initial_capital e))
        in if length (data e) = 0 then Inl ZeroDivisionError
           else
             let annualized_return =
                   np_sub (np_pow (np_add (Fin 1) total_return) (252 / real (length (data e))))
                     (Fin 1);
                 volatility = np_mul (np_std (returns pv)) (Fin (sqrt 252));
                 sharpe_ratio =
                   (if volatility \<noteq> Fin 0
                    then np_div (np_sub annualized_return (Fin (2 / 100))) volatility
                    else Fin 0)
             in case max_drawdown pv of
                  Inl err \<Rightarrow> Inl err
                | Inr md \<Rightarrow>
                    Inr (Some \<lparr>Total_Return = total_return,
                               Annualized_Return = annualized_return,
                               Volatility = volatility,
                               Sharpe_Ratio = sharpe_ratio,
                               Max_Drawdown = md,
                               Win_Ratio = win_ratio (trades e)\<rparr>))"

section \<open>The win ratio as the specification words it\<close>

text \<open>
  The specification reads the trade log in consecutive pairs from the first trade on,
  leaves out an unmatched trailing trade, and takes as the profit of a pair the sell
  price minus the buy price, times the quantity bought. These definitions follow those
  words; \<open>win_ratio\<close> above follows the loop of the source.
\<close>

fun closed_pairs :: "trade list \<Rightarrow> (trade \<times> trade) list" where
  "closed_pairs (b # s # ts) = (b, s) # closed_pairs ts"
| "closed_pairs _ = []"

definition pair_profit :: "trade \<times> trade \<Rightarrow> real" where
  "pair_profit p = (trade_price (snd p) - trade_price (fst p)) * of_int (trade_qty (fst p))"

definition spec_win_ratio :: "trade list \<Rightarrow> real" where
  "spec_win_ratio ts =
     (let ps = closed_pairs ts
      in if ps = [] then 0
         else real (length (filter (\<lambda>p. 0 < pair_profit p) ps)) / real (length ps))"

section \<open>Properties of the simulator\<close>

text \<open>
  C4: on the prices 10, 12, 9, 15 with the signals -1, 1, 1, -1, a capital of 1000 and
  no commission, \<open>run_backtest\<close> returns 1249, logs a BUY of 83 shares at 12 and a SELL
  of 83 shares at 15, and records the portfolio values 1000, 751, 1249.
\<close>

theorem run_backtest_example:
  "run_backtest (init_engine [(10, -1), (12, 1), (9, 1), (15, -1)] 1000 0) =
     Inr (1249,
          \<lparr>data = [(10, -1), (12, 1), (9, 1), (15, -1)], initial_capital = 1000,
           cash = 1249, position = 0, commission = 0,
           trades = [(BUY, 12, 83), (SELL, 15, 83)],
           portfolio_values = [1000, 751, 1249]\<rparr>)"
  by (simp add: run_backtest_def init_engine_def step_def apply_signal_def buy_def sell_def
      Close_def signal_def upt_rec [of 1] upt_rec [of 2] upt_rec [of 3] Let_def)

text \<open>
  C1: with fewer than two observations the loop body never runs. On one observation
  \<open>run_backtest\<close> returns the initial capital and leaves the logs empty. On no
  observation the read of the last price raises IndexError, so no value is returned.
\<close>

theorem run_backtest_empty_raises:
  "run_backtest (init_engine [] capital comm) = Inl IndexError"
  by (simp add: run_backtest_def init_engine_def)

lemma run_backtest_single:
  "run_backtest (init_engine [r] capital comm) = Inr (capital, init_engine [r] capital comm)"
  by (simp add: run_backtest_def init_engine_def)

text \<open>
  C3: the quantity bought is sized by the price alone, and the commission is debited on
  top of the cost. With the prices 10, 10, the signals -1, 1, a capital of 1000 and a
  commission rate of 1/2, the buy of 100 shares leaves a cash balance of -500.
\<close>

theorem run_backtest_negative_cash:
  "run_backtest (init_engine [(10, -1), (10, 1)] 1000 (1 / 2)) =
     Inr (500,
          \<lparr>data = [(10, -1), (10, 1)], initial_capital = 1000,
           cash = - 500, position = 100, commission = 1 / 2,
           trades = [(BUY, 10, 100)], portfolio_values = [500]\<rparr>)"
  by (simp add: run_backtest_def init_engine_def step_def apply_signal_def buy_def
      Close_def signal_def Let_def)

text \<open>
  C5: on a day with previous signal -1 and current signal 1, no position open and a
  price other than zero, the step returns. When the floor of cash over price is not
  positive, cash, shares and trade log are as before; otherwise the shares held are that
  quantity, the cash is lowered by quantity times price times one plus the commission
  rate, and a BUY trade of that price and quantity is appended.
\<close>

theorem buy_crossover:
  assumes "signal (data e ! (i - 1)) = -1" and "signal (data e ! i) = 1"
    and "position e = 0" and "Close (data e ! i) \<noteq> 0"
  shows "\<exists>e'. step e i = Inr e' \<and>
     (let price = Close (data e ! i); quantity = \<lfloor>cash e / price\<rfloor>
      in if quantity \<le> 0
         then cash e' = cash e \<and> position e' = position e \<and> trades e' = trades e
         else position e' = quantity \<and>
              cash e' = cash e - of_int quantity * price * (1 + commission e) \<and>
              trades e' = trades e @ [(BUY, price, quantity)])"
  using assms
  by (simp add: step_def apply_signal_def buy_def Let_def algebra_simps)

theorem buy_crossover_witness:
  "signal (data (init_engine [(10, -1), (12, 1)] 1000 0) ! (1 - 1)) = -1 \<and>
   signal (data (init_engine [(10, -1), (12, 1)] 1000 0) ! 1) = 1 \<and>
   position (init_engine [(10, -1), (12, 1)] 1000 0) = 0 \<and>
   Close (data (init_engine [(10, -1), (12, 1)] 1000 0) ! 1) \<noteq> 0 \<and>
   (\<exists>e'. step (init_engine [(10, -1), (12, 1)] 1000 0) 1 = Inr e' \<and>
      position e' = 83 \<and> cash e' = 4 \<and> trades e' = [(BUY, 12, 83)])"
  using buy_crossover [of "init_engine [(10, -1), (12, 1)] 1000 0" 1]
  by (simp add: init_engine_def Close_def signal_def Let_def)

text \<open>
  C6: on a day with previous signal 1 and current signal -1 the step returns. With
  \<open>q > 0\<close> shares held, the cash is raised by \<open>q\<close> times price times one minus the
  commission rate, the shares held become 0 and a SELL trade of that price and \<open>q\<close> is
  appended; with no position open, cash, shares and trade log are as before.
\<close>

theorem sell_crossover:
  assumes "signal (data e ! (i - 1)) = 1" and "signal (data e ! i) = -1"
  shows "\<exists>e'. step e i = Inr e' \<and>
     (let price = Close (data e ! i); q = position e
      in if 0 < q
         then cash e' = cash e + of_int q * price * (1 - commission e) \<and>
              position e' = 0 \<and>
              trades e' = trades e @ [(SELL, price, q)]
         else cash e' = cash e \<and> position e' = position e \<and> trades e' = trades e)"
  using assms
  by (simp add: step_def apply_signal_def sell_def Let_def algebra_simps)

theorem sell_crossover_witness:
  "signal (data \<lparr>data = [(9, 1), (15, -1)], initial_capital = 1000, cash = 4,
      position = 83, commission = 0, trades = [(BUY, 12, 83)],
      portfolio_values = [1000]\<rparr> ! (1 - 1)) = 1 \<and>
   signal (data \<lparr>data = [(9, 1), (15, -1)], initial_capital = 1000, cash = 4,
      position = 83, commission = 0, trades = [(BUY, 12, 83)],
      portfolio_values = [1000]\<rparr> ! 1) = -1 \<and>
   (\<exists>e'. step \<lparr>data = [(9, 1), (15, -1)], initial_capital = 1000, cash = 4,
      position = 83, commission = 0, trades = [(BUY, 12, 83)],
      portfolio_values = [1000]\<rparr> 1 = Inr e' \<and>
      cash e' = 1249 \<and> position e' = 0 \<and>
      trades e' = [(BUY, 12, 83), (SELL, 15, 83)])"
  using sell_crossover [of "\<lparr>data = [(9, 1), (15, -1)], initial_capital = 1000, cash = 4,
      position = 83, commission = 0, trades = [(BUY, 12, 83)],
      portfolio_values = [1000]\<rparr>" 1]
  by (simp add: Close_def signal_def Let_def)

subsection \<open>What the loop keeps\<close>

lemma buy_data: "buy e p = Inr e' \<Longrightarrow> data e' = data e"
  by (auto simp: buy_def Let_def split: if_splits)

lemma buy_error: "buy e p = Inl err \<Longrightarrow> err = ZeroDivisionError \<and> p = 0"
  by (auto simp: buy_def Let_def split: if_splits)

lemma sell_data: "data (sell e p) = data e"
  by (simp add: sell_def Let_def)

lemma apply_signal_data: "apply_signal e i = Inr e' \<Longrightarrow> data e' = data e"
  by (auto simp: apply_signal_def Let_def sell_data split: if_splits dest: buy_data)

lemma apply_signal_error:
  "apply_signal e i = Inl err \<Longrightarrow> err = ZeroDivisionError \<and> Close (data e ! i) = 0"
  by (auto simp: apply_signal_def Let_def split: if_splits dest: buy_error)

lemma step_data: "step e i = Inr e' \<Longrightarrow> data e' = data e"
  by (auto simp: step_def Let_def split: sum.splits dest: apply_signal_data)

lemma step_error:
  "step e i = Inl err \<Longrightarrow> err = ZeroDivisionError \<and> Close (data e ! i) = 0"
  by (auto simp: step_def Let_def split: sum.splits dest: apply_signal_error)

lemma step_last:
  "step e i = Inr e' \<Longrightarrow>
     portfolio_values e' \<noteq> [] \<and>
     last (portfolio_values e') = cash e' + of_int (position e') * Close (data e ! i)"
  by (auto simp: step_def Let_def split: sum.splits)

lemma loop_data: "loop js e = Inr e' \<Longrightarrow> data e' = data e"
proof (induction js arbitrary: e)
  case Nil
  then show ?case by simp
next
  case (Cons j js)
  then show ?case
    by (auto split: sum.splits dest: step_data)
qed

lemma loop_error:
  "loop js e = Inl err \<Longrightarrow> \<forall>j\<in>set js. j < length (data e) \<Longrightarrow>
     err = ZeroDivisionError \<and> (\<exists>r\<in>set (data e). Close r = 0)"
proof (induction js arbitrary: e)
  case Nil
  then show ?case by simp
next
  case (Cons j js)
  show ?case
  proof (cases "step e j")
    case (Inl err')
    with Cons.prems have "err = ZeroDivisionError" "Close (data e ! j) = 0"
      using step_error [of e j err'] by auto
    moreover have "data e ! j \<in> set (data e)"
      using Cons.prems by simp
    ultimately show ?thesis by blast
  next
    case (Inr e1)
    then have d: "data e1 = data e" by (rule step_data)
    from Cons.prems Inr have "loop js e1 = Inl err" by simp
    moreover have "\<forall>j\<in>set js. j < length (data e1)"
      using Cons.prems d by simp
    ultimately have "err = ZeroDivisionError \<and> (\<exists>r\<in>set (data e1). Close r = 0)"
      by (rule Cons.IH)
    then show ?thesis using d by simp
  qed
qed

lemma loop_append:
  "loop (xs @ ys) e = (case loop xs e of Inl err \<Rightarrow> Inl err | Inr e' \<Rightarrow> loop ys e')"
  by (induction xs arbitrary: e) (auto split: sum.splits)

lemma loop_snoc_last:
  assumes "loop (js @ [j]) e = Inr e'"
  shows "portfolio_values e' \<noteq> [] \<and>
     last (portfolio_values e') = cash e' + of_int (position e') * Close (data e ! j)"
proof -
  from assms obtain e1 where l: "loop js e = Inr e1" and s: "step e1 j = Inr e'"
    by (auto simp: loop_append split: sum.splits)
  from l have "data e1 = data e" by (rule loop_data)
  with step_last [OF s] show ?thesis by simp
qed

text \<open>
  C10: on at least two observations, when \<open>run_backtest\<close> returns, the value returned
  is the last portfolio value recorded. It returns unless a buy meets a price of zero,
  the only exception of the loop.
\<close>

theorem final_value_is_last:
  assumes "2 \<le> length (data e)"
  shows "case run_backtest e of
           Inr (final_value, e') \<Rightarrow>
             portfolio_values e' \<noteq> [] \<and> final_value = last (portfolio_values e')
         | Inl err \<Rightarrow> err = ZeroDivisionError \<and> (\<exists>r\<in>set (data e). Close r = 0)"
proof (cases "loop [1..<length (data e)] e")
  case (Inl err)
  then have "err = ZeroDivisionError \<and> (\<exists>r\<in>set (data e). Close r = 0)"
    by (rule loop_error) simp
  with Inl show ?thesis by (simp add: run_backtest_def)
next
  case (Inr e')
  define n where "n = length (data e) - 1"
  have len: "length (data e) = Suc n" and n1: "1 \<le> n"
    using assms by (simp_all add: n_def)
  have idx: "[1..<length (data e)] = [1..<n] @ [n]"
    unfolding len using n1 by (rule upt_Suc_append)
  have d: "data e' = data e" using Inr by (rule loop_data)
  have ne: "data e \<noteq> []" using assms by auto
  have "last (data e) = data e ! n"
    using ne by (simp add: n_def last_conv_nth)
  moreover have "portfolio_values e' \<noteq> [] \<and>
     last (portfolio_values e') = cash e' + of_int (position e') * Close (data e ! n)"
    using Inr unfolding idx by (rule loop_snoc_last)
  ultimately show ?thesis
    using Inr d ne by (simp add: run_backtest_def Let_def)
qed

theorem final_value_is_last_witness:
  "2 \<le> length (data (init_engine [(10, -1), (12, 1), (9, 1), (15, -1)] 1000 0)) \<and>
   (case run_backtest (init_engine [(10, -1), (12, 1), (9, 1), (15, -1)] 1000 0) of
      Inr (final_value, e') \<Rightarrow>
        portfolio_values e' \<noteq> [] \<and> final_value = last (portfolio_values e')
    | Inl err \<Rightarrow> False)"
  using final_value_is_last [of "init_engine [(10, -1), (12, 1), (9, 1), (15, -1)] 1000 0"]
  by (auto simp add: init_engine_def Close_def split: sum.splits)

section \<open>Properties of the performance metrics\<close>

subsection \<open>Unfolding the index range\<close>

lemma range_step2_unfold:
  "range_step2 i n = (if i < n then i # range_step2 (Suc (Suc i)) n else [])"
  by (subst range_step2.simps) simp

subsection \<open>The fixture of the specification, run and measured\<close>

lemma example_run:
  "run_backtest (init_engine [(10, -1), (12, 1), (9, 1), (15, -1)] 1000 0) =
     Inr (1249,
          \<lparr>data = [(10, -1), (12, 1), (9, 1), (15, -1)], initial_capital = 1000,
           cash = 1249, position = 0, commission = 0,
           trades = [(BUY, 12, 83), (SELL, 15, 83)],
           portfolio_values = [1000, 751, 1249]\<rparr>)"
  by (simp add: run_backtest_def init_engine_def step_def apply_signal_def buy_def sell_def
      Close_def signal_def upt_rec [of 1] upt_rec [of 2] upt_rec [of 3] Let_def)

lemma example_performance:
  "\<exists>m. calculate_performance
       \<lparr>data = [(10, -1), (12, 1), (9, 1), (15, -1)], initial_capital = 1000,
        cash = 1249, position = 0, commission = 0,
        trades = [(BUY, 12, 83), (SELL, 15, 83)],
        portfolio_values = [1000, 751, 1249]\<rparr> = Inr (Some m)"
  by (simp add: calculate_performance_def Let_def max_drawdown_def drawdown_def)

subsection \<open>The return series\<close>

lemma np_diff_length [simp]: "length (np_diff a) = length a - 1"
  by (simp add: np_diff_def)

lemma returns_raw_length: "length (returns_raw pv) = length pv - 1"
  by (simp add: returns_raw_def)

lemma returns_raw_nth:
  assumes "Suc i < length pv"
  shows "returns_raw pv ! i = np_div (Fin (pv ! Suc i - pv ! i)) (Fin (pv ! i))"
  using assms by (simp add: returns_raw_def np_diff_def nth_tl nth_butlast)

text \<open>
  The smallest series with an infinite return: on the portfolio values 0, 1 (with a
  capital of 1) the return 1 / 0 is infinite and passes the NaN filter.
\<close>

lemma returns_zero_one:
  "calculate_performance
       \<lparr>data = [(10, 1), (10, 1), (10, 1)], initial_capital = 1, cash = 1,
        position = 0, commission = 0, trades = [], portfolio_values = [0, 1]\<rparr> =
     Inr (Some \<lparr>Total_Return = Fin 0, Annualized_Return = Fin 0, Volatility = NaN,
                Sharpe_Ratio = NaN, Max_Drawdown = NaN, Win_Ratio = 0\<rparr>) \<and>
   returns [0, 1] = [PInf] \<and> \<not> isfinite PInf"
  by (simp add: calculate_performance_def Let_def max_drawdown_def drawdown_def
      np_minimum_def isnan_def isfinite_def returns_def returns_raw_def np_diff_def np_std_def
      np_sub_def win_ratio_def profits_def range_step2_unfold [of "Suc 0" 0])

text \<open>
  C2: every non-finite per-step return is to be removed before the volatility is
  computed. The filter of the code tests for NaN only, so it removes 0 / 0 and lets an
  infinite return through. With the default capital of 1000000 and commission rate of
  1/1000, on the prices 1, 1, 1/1000, 2/1000 with the signals -1, 1, 1, 1, the run
  records the portfolio values 999000, 0, 1000; the returns are -1 and infinity, the
  infinite one stays in the series, and the volatility and the Sharpe ratio are NaN.
\<close>

theorem returns_infinite_kept:
  "run_backtest
       (init_engine [(1, -1), (1, 1), (1 / 1000, 1), (2 / 1000, 1)] 1000000 (1 / 1000)) =
     Inr (1000,
          \<lparr>data = [(1, -1), (1, 1), (1 / 1000, 1), (2 / 1000, 1)],
           initial_capital = 1000000, cash = - 1000, position = 1000000,
           commission = 1 / 1000, trades = [(BUY, 1, 1000000)],
           portfolio_values = [999000, 0, 1000]\<rparr>) \<and>
   returns [999000, 0, 1000] = [Fin (- 1), PInf] \<and>
   \<not> isfinite PInf \<and>
   calculate_performance
       \<lparr>data = [(1, -1), (1, 1), (1 / 1000, 1), (2 / 1000, 1)],
        initial_capital = 1000000, cash = - 1000, position = 1000000,
        commission = 1 / 1000, trades = [(BUY, 1, 1000000)],
        portfolio_values = [999000, 0, 1000]\<rparr> =
     Inr (Some \<lparr>Total_Return = Fin (- 999 / 1000),
                Annualized_Return = Fin ((1 / 1000) ^ 63 - 1),
                Volatility = NaN, Sharpe_Ratio = NaN, Max_Drawdown = Fin (- 1),
                Win_Ratio = 0\<rparr>)"
proof -
  have run: "run_backtest
       (init_engine [(1, -1), (1, 1), (1 / 1000, 1), (2 / 1000, 1)] 1000000 (1 / 1000)) =
     Inr (1000,
          \<lparr>data = [(1, -1), (1, 1), (1 / 1000, 1), (2 / 1000, 1)],
           initial_capital = 1000000, cash = - 1000, position = 1000000,
           commission = 1 / 1000, trades = [(BUY, 1, 1000000)],
           portfolio_values = [999000, 0, 1000]\<rparr>)"
    by (simp add: run_backtest_def init_engine_def step_def apply_signal_def buy_def sell_def
        Close_def signal_def upt_rec [of 1] upt_rec [of 2] upt_rec [of 3] Let_def)
  have ret: "returns [999000, 0, 1000] = [Fin (- 1), PInf]"
    by (simp add: returns_def returns_raw_def np_diff_def isnan_def)
  have inf: "\<not> isfinite PInf"
    by (simp add: isfinite_def)
  have std: "np_std [Fin (- 1), PInf] = NaN"
    by (simp add: np_std_def isfinite_def)
  have dd: "max_drawdown [999000, 0, 1000] = Inr (Fin (- 1))"
    by (simp add: max_drawdown_def drawdown_def np_minimum_def isnan_def)
  have win: "win_ratio [(BUY, 1, 1000000)] = 0"
    by (simp add: win_ratio_def profits_def range_step2_unfold [of "Suc 0" "Suc 0"])
  have perf: "calculate_performance
       \<lparr>data = [(1, -1), (1, 1), (1 / 1000, 1), (2 / 1000, 1)],
        initial_capital = 1000000, cash = - 1000, position = 1000000,
        commission = 1 / 1000, trades = [(BUY, 1, 1000000)],
        portfolio_values = [999000, 0, 1000]\<rparr> =
     Inr (Some \<lparr>Total_Return = Fin (- 999 / 1000),
                Annualized_Return = Fin ((1 / 1000) ^ 63 - 1),
                Volatility = NaN, Sharpe_Ratio = NaN, Max_Drawdown = Fin (- 1),
                Win_Ratio = 0\<rparr>)"
    by (simp add: calculate_performance_def Let_def ret std dd win np_sub_def)
  from run ret inf perf show ?thesis by (intro conjI)
qed

subsection \<open>The maximum drawdown\<close>

lemma accumulate_from_length [simp]: "length (accumulate_from m xs) = length xs"
  by (induction xs arbitrary: m) simp_all

lemma drawdown_tail_finite:
  assumes "0 < m"
  shows "\<exists>ds. map2 (\<lambda>v M. np_div (Fin (v - M)) (Fin M)) xs (accumulate_from m xs) = map Fin ds \<and>
     (\<forall>d\<in>set ds. d \<le> 0) \<and> ((\<forall>d\<in>set ds. d = 0) \<longleftrightarrow> sorted (m # xs))"
  using assms
proof (induction xs arbitrary: m)
  case Nil
  then show ?case by simp
next
  case (Cons x xs)
  let ?M = "max m x"
  have M: "0 < ?M" using Cons.prems by simp
  from Cons.IH [OF M] obtain ds where
    ds: "map2 (\<lambda>v M. np_div (Fin (v - M)) (Fin M)) xs (accumulate_from ?M xs) = map Fin ds"
    and le: "\<forall>d\<in>set ds. d \<le> 0"
    and z: "(\<forall>d\<in>set ds. d = 0) \<longleftrightarrow> sorted (?M # xs)"
    by blast
  let ?d = "(x - ?M) / ?M"
  have eq: "map2 (\<lambda>v M. np_div (Fin (v - M)) (Fin M)) (x # xs) (accumulate_from m (x # xs)) =
      map Fin (?d # ds)"
    using M ds by simp
  have dle: "?d \<le> 0"
    using M by (simp add: divide_le_0_iff)
  have dz: "?d = 0 \<longleftrightarrow> m \<le> x"
    using M by auto
  have "(\<forall>d\<in>set (?d # ds). d = 0) \<longleftrightarrow> sorted (m # x # xs)"
  proof (cases "m \<le> x")
    case True
    then have "?M = x" by simp
    with z dz True show ?thesis by fastforce
  next
    case False
    with dz show ?thesis by simp
  qed
  with eq dle le show ?case
    by (intro exI [of _ "?d # ds"]) simp
qed

lemma fold_np_minimum_fin:
  assumes "a \<le> 0" and "\<forall>d\<in>set ds. d \<le> 0"
  shows "\<exists>r. fold (\<lambda>y acc. np_minimum acc y) (map Fin ds) (Fin a) = Fin r \<and> r \<le> 0 \<and>
     (r = 0 \<longleftrightarrow> a = 0 \<and> (\<forall>d\<in>set ds. d = 0))"
  using assms
proof (induction ds arbitrary: a)
  case Nil
  then show ?case by simp
next
  case (Cons d ds)
  have m: "np_minimum (Fin a) (Fin d) = Fin (min a d)"
    by (simp add: np_minimum_def isnan_def min_def)
  have "min a d \<le> 0" using Cons.prems by simp
  moreover have "\<forall>d\<in>set ds. d \<le> 0" using Cons.prems by simp
  ultimately obtain r where
    r: "fold (\<lambda>y acc. np_minimum acc y) (map Fin ds) (Fin (min a d)) = Fin r"
    and "r \<le> 0" and rz: "r = 0 \<longleftrightarrow> min a d = 0 \<and> (\<forall>d\<in>set ds. d = 0)"
    using Cons.IH [of "min a d"] by blast
  moreover have "min a d = 0 \<longleftrightarrow> a = 0 \<and> d = 0"
    using Cons.prems by (auto simp: min_def)
  ultimately show ?case
    by (intro exI [of _ r]) (simp add: m)
qed

lemma max_drawdown_positive_start:
  assumes "pv \<noteq> []" and "0 < hd pv"
  shows "\<exists>d. max_drawdown pv = Inr (Fin d) \<and> d \<le> 0 \<and> (d = 0 \<longleftrightarrow> sorted pv)"
proof -
  from assms obtain x xs where pv: "pv = x # xs" and x: "0 < x"
    by (cases pv) auto
  from drawdown_tail_finite [OF x, of xs] obtain ds where
    ds: "map2 (\<lambda>v M. np_div (Fin (v - M)) (Fin M)) xs (accumulate_from x xs) = map Fin ds"
    and le: "\<forall>d\<in>set ds. d \<le> 0"
    and z: "(\<forall>d\<in>set ds. d = 0) \<longleftrightarrow> sorted (x # xs)"
    by blast
  have dd: "drawdown pv = Fin 0 # map Fin ds"
    using x ds by (simp add: drawdown_def pv)
  from fold_np_minimum_fin [of 0 ds] le obtain r where
    "fold (\<lambda>y acc. np_minimum acc y) (map Fin ds) (Fin 0) = Fin r"
    and "r \<le> 0" and "r = 0 \<longleftrightarrow> (\<forall>d\<in>set ds. d = 0)"
    by auto
  moreover have "max_drawdown pv = Inr (fold (\<lambda>y acc. np_minimum acc y) (map Fin ds) (Fin 0))"
    unfolding max_drawdown_def dd by simp
  ultimately show ?thesis
    using z pv by auto
qed

lemma calculate_performance_max_drawdown:
  "calculate_performance e = Inr (Some m) \<Longrightarrow>
     2 \<le> length (portfolio_values e) \<and> max_drawdown (portfolio_values e) = Inr (Max_Drawdown m)"
  by (auto simp: calculate_performance_def Let_def split: if_splits sum.splits)

text \<open>
  C7, as the code has it: for a portfolio-value series of length at least 2 whose first
  value is positive, the maximum drawdown is a number, it is at most 0, and it is 0
  exactly when the series is non-decreasing.
\<close>

theorem max_drawdown_bound:
  assumes "calculate_performance e = Inr (Some m)" and "0 < hd (portfolio_values e)"
  shows "\<exists>d. Max_Drawdown m = Fin d \<and> d \<le> 0 \<and> (d = 0 \<longleftrightarrow> sorted (portfolio_values e))"
proof -
  from calculate_performance_max_drawdown [OF assms(1)]
  have "portfolio_values e \<noteq> []" and "max_drawdown (portfolio_values e) = Inr (Max_Drawdown m)"
    by auto
  with max_drawdown_positive_start [OF this(1) assms(2)] show ?thesis by auto
qed

theorem max_drawdown_bound_witness:
  "\<exists>m. calculate_performance
       \<lparr>data = [(10, -1), (12, 1), (9, 1), (15, -1)], initial_capital = 1000,
        cash = 1249, position = 0, commission = 0,
        trades = [(BUY, 12, 83), (SELL, 15, 83)],
        portfolio_values = [1000, 751, 1249]\<rparr> = Inr (Some m) \<and>
     0 < hd [1000, 751, 1249 :: real] \<and>
     (\<exists>d. Max_Drawdown m = Fin d \<and> d \<le> 0 \<and> d \<noteq> 0) \<and>
     \<not> sorted [1000, 751, 1249 :: real]"
proof -
  let ?e = "\<lparr>data = [(10, -1), (12, 1), (9, 1), (15, -1)], initial_capital = 1000,
           cash = 1249, position = 0, commission = 0,
           trades = [(BUY, 12, 83), (SELL, 15, 83)],
           portfolio_values = [1000, 751, 1249]\<rparr>"
  from example_performance obtain m where m: "calculate_performance ?e = Inr (Some m)"
    by blast
  have h: "0 < hd (portfolio_values ?e)" by simp
  from max_drawdown_bound [OF m h] m show ?thesis
    by (intro exI [of _ m]) auto
qed

text \<open>
  C7, as stated, fails on the portfolio values -1, -2 (with a capital of 2): the running
  maximum is negative, the drawdowns are 0 and 1, and the maximum drawdown is 0 although
  the series decreases.
\<close>

theorem max_drawdown_counterexample:
  "calculate_performance
       \<lparr>data = [(10, 1), (10, 1), (10, 1)], initial_capital = 2, cash = 2,
        position = 0, commission = 0, trades = [], portfolio_values = [-1, -2]\<rparr> =
     Inr (Some \<lparr>Total_Return = Fin (- 2), Annualized_Return = Fin 0, Volatility = Fin 0,
                Sharpe_Ratio = Fin 0, Max_Drawdown = Fin 0, Win_Ratio = 0\<rparr>) \<and>
   \<not> sorted [-1, -2 :: real]"
  by (simp add: calculate_performance_def Let_def max_drawdown_def drawdown_def
      np_minimum_def isnan_def isfinite_def returns_def returns_raw_def np_diff_def np_std_def
      np_sub_def win_ratio_def profits_def range_step2_unfold [of "Suc 0" 0]
      is_whole_def mean_def)

subsection \<open>The win ratio\<close>

lemma range_step2_shift:
  "range_step2 (Suc (Suc i)) (Suc (Suc n)) = map (\<lambda>k. Suc (Suc k)) (range_step2 i n)"
proof (induction i n rule: range_step2.induct)
  case (1 i n)
  show ?case
  proof (cases "i < n")
    case True
    with 1 have "range_step2 (Suc (Suc (Suc (Suc i)))) (Suc (Suc n)) =
        map (\<lambda>k. Suc (Suc k)) (range_step2 (Suc (Suc i)) n)"
      by simp
    with True show ?thesis
      by (subst range_step2_unfold, subst (2) range_step2_unfold) simp
  next
    case False
    then show ?thesis
      by (subst range_step2_unfold, subst (2) range_step2_unfold) simp
  qed
qed

lemma range_step2_ge: "k \<in> set (range_step2 i n) \<Longrightarrow> i \<le> k"
proof (induction i n rule: range_step2.induct)
  case (1 i n)
  show ?case
  proof (cases "i < n")
    case True
    with "1.prems" have "k = i \<or> k \<in> set (range_step2 (i + 2) n)"
      by (subst (asm) range_step2.simps) simp
    with "1.IH" True show ?thesis by auto
  next
    case False
    with "1.prems" show ?thesis
      by (subst (asm) range_step2.simps) simp
  qed
qed

lemma range_step2_pairs:
  "range_step2 (Suc 0) (Suc (Suc n)) =
     Suc 0 # map (\<lambda>k. Suc (Suc k)) (range_step2 (Suc 0) n)"
  using range_step2_shift [of "Suc 0" n]
  by (subst range_step2_unfold) simp

lemma profits_closed_pairs: "profits ts = map pair_profit (closed_pairs ts)"
proof (induction ts rule: closed_pairs.induct)
  case (1 b s ts)
  let ?f = "\<lambda>us i. (trade_price (us ! i) - trade_price (us ! (i - 1))) *
      of_int (trade_qty (us ! (i - 1)))"
  have shift: "?f (b # s # ts) (Suc (Suc k)) = ?f ts k"
    if "k \<in> set (range_step2 (Suc 0) (length ts))" for k
  proof -
    from that have "k \<noteq> 0"
      using range_step2_ge [of k "Suc 0" "length ts"] by simp
    then show ?thesis by (simp add: nth_Cons')
  qed
  have "profits (b # s # ts) = map (?f (b # s # ts)) (range_step2 (Suc 0) (Suc (Suc (length ts))))"
    by (simp add: profits_def Let_def)
  also have "\<dots> = ?f (b # s # ts) (Suc 0) #
      map (\<lambda>k. ?f (b # s # ts) (Suc (Suc k))) (range_step2 (Suc 0) (length ts))"
    by (simp only: range_step2_pairs list.map map_map o_def)
  also have "\<dots> = pair_profit (b, s) # map (?f ts) (range_step2 (Suc 0) (length ts))"
    using shift by (simp add: pair_profit_def cong: map_cong)
  also have "\<dots> = pair_profit (b, s) # profits ts"
    by (simp add: profits_def Let_def)
  finally show ?case using 1 by simp
qed (simp_all add: profits_def range_step2_unfold [of "Suc 0" 0]
    range_step2_unfold [of "Suc 0" "Suc 0"])

lemma win_ratio_spec: "win_ratio ts = spec_win_ratio ts"
  by (simp add: win_ratio_def spec_win_ratio_def profits_closed_pairs Let_def filter_map o_def)

lemma win_ratio_bounds: "0 \<le> win_ratio ts \<and> win_ratio ts \<le> 1"
proof -
  have "length (filter (\<lambda>p. 0 < p) (profits ts)) \<le> length (profits ts)"
    by (rule length_filter_le)
  then show ?thesis
    by (auto simp: win_ratio_def Let_def divide_le_eq_1)
qed

lemma win_ratio_short: "length ts < 2 \<Longrightarrow> win_ratio ts = 0"
  by (cases ts rule: closed_pairs.cases) (simp_all add: win_ratio_spec spec_win_ratio_def)

lemma calculate_performance_win_ratio:
  "calculate_performance e = Inr (Some m) \<Longrightarrow> Win_Ratio m = win_ratio (trades e)"
  by (auto simp: calculate_performance_def Let_def split: if_splits sum.splits)

text \<open>
  C8: when \<open>calculate_performance\<close> returns metrics, the win ratio lies between 0 and
  1, it is the share of winning pairs among the consecutive pairs of the trade log as the
  specification words it (0 when there is no pair), and it is 0 on a trade log of fewer
  than two entries.
\<close>

theorem win_ratio_correct:
  assumes "calculate_performance e = Inr (Some m)"
  shows "0 \<le> Win_Ratio m \<and> Win_Ratio m \<le> 1 \<and>
     Win_Ratio m = spec_win_ratio (trades e) \<and>
     (length (trades e) < 2 \<longrightarrow> Win_Ratio m = 0)"
  using calculate_performance_win_ratio [OF assms] win_ratio_bounds [of "trades e"]
    win_ratio_spec [of "trades e"] win_ratio_short [of "trades e"]
  by simp

theorem win_ratio_correct_witness:
  "\<exists>m. calculate_performance
       \<lparr>data = [(10, -1), (12, 1), (9, 1), (15, -1)], initial_capital = 1000,
        cash = 1249, position = 0, commission = 0,
        trades = [(BUY, 12, 83), (SELL, 15, 83)],
        portfolio_values = [1000, 751, 1249]\<rparr> = Inr (Some m) \<and>
     Win_Ratio m = 1 \<and> 0 \<le> Win_Ratio m \<and> Win_Ratio m \<le> 1"
proof -
  let ?e = "\<lparr>data = [(10, -1), (12, 1), (9, 1), (15, -1)], initial_capital = 1000,
           cash = 1249, position = 0, commission = 0,
           trades = [(BUY, 12, 83), (SELL, 15, 83)],
           portfolio_values = [1000, 751, 1249]\<rparr>"
  from example_performance obtain m where m: "calculate_performance ?e = Inr (Some m)"
    by blast
  from win_ratio_correct [OF m] m show ?thesis
    by (intro exI [of _ m])
      (simp add: spec_win_ratio_def pair_profit_def trade_price_def trade_qty_def)
qed

subsection \<open>The annualized return\<close>

lemma buy_capital: "buy e p = Inr e' \<Longrightarrow> initial_capital e' = initial_capital e"
  by (auto simp: buy_def Let_def split: if_splits)

lemma step_capital: "step e i = Inr e' \<Longrightarrow> initial_capital e' = initial_capital e"
  by (auto simp: step_def apply_signal_def sell_def Let_def
      split: sum.splits if_splits dest: buy_capital)

lemma buy_values: "buy e p = Inr e' \<Longrightarrow> portfolio_values e' = portfolio_values e"
  by (auto simp: buy_def Let_def split: if_splits)

lemma step_values_length:
  "step e i = Inr e' \<Longrightarrow> length (portfolio_values e') = Suc (length (portfolio_values e))"
  by (auto simp: step_def apply_signal_def sell_def Let_def
      split: sum.splits if_splits dest: buy_values)

lemma loop_capital: "loop js e = Inr e' \<Longrightarrow> initial_capital e' = initial_capital e"
proof (induction js arbitrary: e)
  case Nil
  then show ?case by simp
next
  case (Cons j js)
  then show ?case
    by (auto split: sum.splits dest: step_capital)
qed

lemma loop_values_length:
  "loop js e = Inr e' \<Longrightarrow>
     length (portfolio_values e') = length (portfolio_values e) + length js"
proof (induction js arbitrary: e)
  case Nil
  then show ?case by simp
next
  case (Cons j js)
  then show ?case
    by (auto split: sum.splits dest!: step_values_length)
qed

lemma run_backtest_result:
  assumes "run_backtest e = Inr (fv, e')"
  shows "data e' = data e \<and> initial_capital e' = initial_capital e \<and> data e \<noteq> [] \<and>
     length (portfolio_values e') = length (portfolio_values e) + (length (data e) - 1)"
proof -
  from assms obtain e1 where l: "loop [1..<length (data e)] e = Inr e1" and "e' = e1"
    by (auto simp: run_backtest_def Let_def split: sum.splits if_splits)
  then have l': "loop [1..<length (data e)] e = Inr e'" by simp
  have "data e' \<noteq> []"
    using assms l by (auto simp: run_backtest_def Let_def split: sum.splits if_splits)
  with loop_data [OF l'] loop_capital [OF l'] loop_values_length [OF l'] show ?thesis
    by simp
qed

lemma calculate_performance_annualized:
  assumes "calculate_performance e = Inr (Some m)"
  shows "Total_Return m =
       np_div (Fin (last (portfolio_values e) - initial_capital e)) (Fin (initial_capital e)) \<and>
     Annualized_Return m =
       np_sub (np_pow (np_add (Fin 1) (Total_Return m)) (252 / real (length (data e)))) (Fin 1)"
  using assms
  by (auto simp: calculate_performance_def Let_def split: if_splits sum.splits)

text \<open>
  C9: when \<open>run_backtest\<close> on a fresh engine returns and \<open>calculate_performance\<close> then
  returns metrics, the annualized return is one plus the total return, to the power 252
  over the number of observations of the price series, minus one. That number is one more
  than the length of the portfolio-value series. Where one plus the total return is
  positive the power is the real power.
\<close>

theorem annualized_return_exponent:
  assumes "run_backtest (init_engine d capital comm) = Inr (final_value, e)"
    and "calculate_performance e = Inr (Some m)"
  shows "length d = length (portfolio_values e) + 1 \<and>
     Total_Return m = np_div (Fin (last (portfolio_values e) - capital)) (Fin capital) \<and>
     Annualized_Return m =
       np_sub (np_pow (np_add (Fin 1) (Total_Return m)) (252 / real (length d))) (Fin 1) \<and>
     (capital \<noteq> 0 \<and> 0 < 1 + (last (portfolio_values e) - capital) / capital \<longrightarrow>
        Annualized_Return m =
          Fin ((1 + (last (portfolio_values e) - capital) / capital) powr (252 / real (length d))
               - 1))"
proof -
  from run_backtest_result [OF assms(1)]
  have d: "data e = d" and c: "initial_capital e = capital" and ne: "d \<noteq> []"
    and len: "length (portfolio_values e) = length d - 1"
    by (simp_all add: init_engine_def)
  from ne have "length d = length (portfolio_values e) + 1"
    using len by (cases d) simp_all
  moreover note calculate_performance_annualized [OF assms(2)]
  ultimately show ?thesis
    using d c ne by (auto simp: np_sub_def)
qed

theorem annualized_return_exponent_witness:
  "\<exists>final_value e m.
     run_backtest (init_engine [(10, -1), (12, 1), (9, 1), (15, -1)] 1000 0) =
       Inr (final_value, e) \<and>
     calculate_performance e = Inr (Some m) \<and>
     length (portfolio_values e) = 3 \<and>
     Total_Return m = Fin (249 / 1000) \<and>
     Annualized_Return m = Fin ((1249 / 1000) powr (252 / 4) - 1)"
proof -
  let ?e = "\<lparr>data = [(10, -1), (12, 1), (9, 1), (15, -1)], initial_capital = 1000,
           cash = 1249, position = 0, commission = 0,
           trades = [(BUY, 12, 83), (SELL, 15, 83)],
           portfolio_values = [1000, 751, 1249]\<rparr>"
  from example_performance obtain m where m: "calculate_performance ?e = Inr (Some m)"
    by blast
  have "(1::real) + 249 / 1000 = 1249 / 1000" by simp
  with annualized_return_exponent [OF example_run m] example_run m show ?thesis
    by (intro exI [of _ 1249] exI [of _ ?e] exI [of _ m]) (simp add: np_sub_def del: powr_numeral)
qed

subsection \<open>The recorded series starts positive\<close>

text \<open>
  With a positive capital, a commission rate in [0, 1) and a positive price on day 1, the
  first portfolio value that \<open>run_backtest\<close> records on a fresh engine is positive: a
  buy costs at most the cash, and the commission on it is less than the cost. So the
  series the engine records from such inputs have a positive running maximum throughout.
\<close>

lemma step_values_append:
  "step e i = Inr e' \<Longrightarrow> \<exists>v. portfolio_values e' = portfolio_values e @ [v]"
  by (auto simp: step_def apply_signal_def sell_def Let_def
      split: sum.splits if_splits dest: buy_values)

lemma loop_values_prefix:
  "loop js e = Inr e' \<Longrightarrow> \<exists>vs. portfolio_values e' = portfolio_values e @ vs"
proof (induction js arbitrary: e)
  case Nil
  then show ?case by simp
next
  case (Cons j js)
  from Cons.prems obtain e1 where s: "step e j = Inr e1" and l: "loop js e1 = Inr e'"
    by (auto split: sum.splits)
  from step_values_append [OF s] Cons.IH [OF l] show ?case by auto
qed

lemma floor_cost_le:
  assumes "0 < (p::real)"
  shows "of_int \<lfloor>c / p\<rfloor> * p \<le> c"
proof -
  have "of_int \<lfloor>c / p\<rfloor> \<le> c / p" by (rule of_int_floor_le)
  then have "of_int \<lfloor>c / p\<rfloor> * p \<le> c / p * p"
    using assms by (intro mult_right_mono) simp_all
  then show ?thesis using assms by simp
qed

lemma first_step_positive:
  assumes "step (init_engine d capital comm) 1 = Inr e1"
    and "0 < capital" and "0 \<le> comm" and "comm < 1" and "0 < Close (d ! 1)"
  shows "length (portfolio_values e1) = 1 \<and> 0 < hd (portfolio_values e1)"
proof -
  let ?p = "Close (d ! 1)"
  let ?q = "\<lfloor>capital / ?p\<rfloor>"
  have le: "of_int ?q * ?p \<le> capital"
    using assms(5) by (rule floor_cost_le)
  have "0 < capital - of_int ?q * ?p * comm" if "0 < ?q"
  proof -
    from that assms(5) have "0 < of_int ?q * ?p" by simp
    with assms(4) have "of_int ?q * ?p * comm < of_int ?q * ?p * 1"
      by (intro mult_strict_left_mono)
    with le show ?thesis by simp
  qed
  with assms show ?thesis
    by (auto simp: step_def apply_signal_def buy_def sell_def init_engine_def Let_def
        algebra_simps split: if_splits)
qed

lemma first_value_positive:
  assumes "run_backtest (init_engine d capital comm) = Inr (final_value, e)"
    and "2 \<le> length d"
    and "0 < capital" and "0 \<le> comm" and "comm < 1" and "0 < Close (d ! 1)"
  shows "0 < hd (portfolio_values e)"
proof -
  have idx: "[1..<length d] = 1 # [2..<length d]"
    using assms(2) upt_conv_Cons [of 1 "length d"] by (simp add: numeral_2_eq_2)
  from assms(1) have "loop [1..<length d] (init_engine d capital comm) = Inr e"
    by (auto simp: run_backtest_def init_engine_def Let_def split: sum.splits if_splits)
  then obtain e1 where s: "step (init_engine d capital comm) 1 = Inr e1"
    and l: "loop [2..<length d] e1 = Inr e"
    unfolding idx by (auto split: sum.splits)
  from first_step_positive [OF s assms(3-6)]
  have "portfolio_values e1 \<noteq> []" and "0 < hd (portfolio_values e1)"
    by auto
  with loop_values_prefix [OF l] show ?thesis by auto
qed

end
